theory Spec2Isabelle
  imports Main "HOL-Library.Word" "HOL-Library.Signed_Division"
begin

unbundle bit_operations_syntax

section \<open>Configuration (config.h) and constants of main.cpp\<close>

type_synonym u8 = "8 word"
type_synonym u32 = "32 word"

text \<open>\<open>int8_t\<close>: an 8-bit word read through \<open>sint\<close>.\<close>
type_synonym i8 = "8 word"

datatype ReaderState = STATE_IDLE | STATE_CARD_DETECTED | STATE_SUCCESS | STATE_ERROR

definition NUM_LEDS :: nat where "NUM_LEDS = 8"
definition MIN_BRIGHTNESS :: int where "MIN_BRIGHTNESS = 2"
definition MAX_BRIGHTNESS :: int where "MAX_BRIGHTNESS = 65"

definition CHASER_INTERVAL_MS :: u32 where "CHASER_INTERVAL_MS = 120"
definition CHASER_DIM :: u8 where "CHASER_DIM = 22"
definition RAMP_MS :: u32 where "RAMP_MS = 2000"
definition targetVol :: int where "targetVol = 21"

definition EVT_CARD_DETECTED :: u32 where "EVT_CARD_DETECTED = push_bit 0 1"
definition EVT_PLAY_SUCCESS :: u32 where "EVT_PLAY_SUCCESS = push_bit 1 1"
definition EVT_AUDIO_DONE :: u32 where "EVT_AUDIO_DONE = push_bit 2 1"

section \<open>Library pieces the code calls\<close>

text \<open>
  Modelled from the spec: the FreeRTOS tick configuration (\<open>configTICK_RATE_HZ\<close>,
  \<open>pdMS_TO_TICKS\<close>, \<open>portTICK_PERIOD_MS\<close>) is not part of the repository. The
  macros are written as FreeRTOS defines them, on the 32-bit \<open>TickType_t\<close>, with the
  tick rate of the Arduino core for the ESP32 (1000 Hz, one tick per millisecond).
\<close>
definition configTICK_RATE_HZ :: u32 where "configTICK_RATE_HZ = 1000"

definition pdMS_TO_TICKS :: "u32 \<Rightarrow> u32" where
  "pdMS_TO_TICKS ms = (ms * configTICK_RATE_HZ) div 1000"

definition portTICK_PERIOD_MS :: u32 where
  "portTICK_PERIOD_MS = 1000 div configTICK_RATE_HZ"

definition msToTicks :: "u32 \<Rightarrow> u32" where
  "msToTicks ms = pdMS_TO_TICKS ms"

text \<open>
  Modelled from the spec: Arduino's \<open>map\<close> (core library, not part of the repository),
  the linear interpolation of \<open>x\<close> from the input range to the output range in
  \<open>long\<close> arithmetic with C's truncating division; the ESP32 core returns -1 for an
  empty input range.
\<close>
definition map_long :: "int \<Rightarrow> int \<Rightarrow> int \<Rightarrow> int \<Rightarrow> int \<Rightarrow> int" where
  "map_long x in_min in_max out_min out_max =
     (let run = in_max - in_min in
      if run = 0 then - 1
      else let rise = out_max - out_min; delta = x - in_min
           in (delta * rise) sdiv run + out_min)"

text \<open>FastLED's pixel type and the named colours the code uses.\<close>
datatype CRGB = CRGB (red: u8) (green: u8) (blue: u8)

definition CRGB_Black :: CRGB where "CRGB_Black = CRGB 0 0 0"
definition CRGB_Red :: CRGB where "CRGB_Red = CRGB 255 0 0"
definition CRGB_Green :: CRGB where "CRGB_Green = CRGB 0 128 0"
definition CRGB_Blue :: CRGB where "CRGB_Blue = CRGB 0 0 255"
definition CRGB_Yellow :: CRGB where "CRGB_Yellow = CRGB 255 255 0"

definition CHASER_COLOR :: CRGB where "CHASER_COLOR = CRGB_Blue"

text \<open>
  Modelled from the spec: FastLED's \<open>nscale8\<close> (the dim base colour of the chaser), each
  channel scaled by \<open>(1 + scale) / 256\<close> in 16-bit arithmetic.
\<close>
definition scale8 :: "u8 \<Rightarrow> u8 \<Rightarrow> u8" where
  "scale8 i sc = ucast (drop_bit 8 ((ucast i :: 16 word) * (ucast sc + 1)))"

definition nscale8 :: "CRGB \<Rightarrow> u8 \<Rightarrow> CRGB" where
  "nscale8 c sc = CRGB (scale8 (red c) sc) (scale8 (green c) sc) (scale8 (blue c) sc)"

section \<open>The globals of the FreeRTOS variant\<close>

text \<open>
  What the tasks do to each other and to the hardware is recorded, in order, in
  \<open>trace\<close>: a poll of the card reader (with its timeout in milliseconds), a
  notification sent to the LED task or to the audio task (with the bits set), and a
  delay of the calling task (in ticks).
\<close>
datatype action = Poll u32 | NotifyLed u32 | NotifyAudio u32 | Delay u32

text \<open>
  All three tasks work on the same globals, so they are one record. \<open>strip\<close> is the
  frame last pushed by \<open>FastLED.show()\<close> (global brightness and pixels);
  \<open>tickCount\<close> is the RTOS tick counter read by \<open>xTaskGetTickCount\<close>;
  \<open>ledNotify\<close> and \<open>audioNotify\<close> are the notification values of the LED task and
  of the audio task, where \<open>xTaskNotify(..., eSetBits)\<close> sets bits;
  \<open>lastStepTick\<close> is the static local of \<open>runChaserStep\<close>, \<open>wasRunning\<close> the
  local of \<open>TaskAudio\<close>; \<open>audioRunning\<close> and \<open>volume\<close> are the state of the
  \<open>Audio\<close> object.
\<close>
record firmware =
  state :: ReaderState
  stateStartTick :: u32
  sdOk :: bool
  chaserIndex :: i8
  chaserDir :: i8
  lastStepTick :: u32
  leds :: "CRGB list"
  brightness :: u8
  strip :: "u8 \<times> CRGB list"
  tickCount :: u32
  ledNotify :: u32
  audioNotify :: u32
  audioRunning :: bool
  volume :: int
  wasRunning :: bool
  uid :: "u8 list"
  uidLength :: u8
  trace :: "action list"

definition xTaskGetTickCount :: "firmware \<Rightarrow> u32" where
  "xTaskGetTickCount s = tickCount s"

text \<open>
  The calling task resumes the requested number of ticks later. The tick counter moves
  in a delay (and between iterations, see \<open>sys_step\<close>), not while a task computes.
\<close>
definition vTaskDelay :: "u32 \<Rightarrow> firmware \<Rightarrow> firmware" where
  "vTaskDelay n s = s\<lparr>tickCount := tickCount s + n, trace := trace s @ [Delay n]\<rparr>"

definition xTaskNotify_led :: "u32 \<Rightarrow> firmware \<Rightarrow> firmware" where
  "xTaskNotify_led bits s =
     s\<lparr>ledNotify := ledNotify s OR bits, trace := trace s @ [NotifyLed bits]\<rparr>"

definition xTaskNotify_audio :: "u32 \<Rightarrow> firmware \<Rightarrow> firmware" where
  "xTaskNotify_audio bits s =
     s\<lparr>audioNotify := audioNotify s OR bits, trace := trace s @ [NotifyAudio bits]\<rparr>"

definition FastLED_setBrightness :: "int \<Rightarrow> firmware \<Rightarrow> firmware" where
  "FastLED_setBrightness b s = s\<lparr>brightness := word_of_int b\<rparr>"

definition fill_solid :: "nat \<Rightarrow> CRGB \<Rightarrow> firmware \<Rightarrow> firmware" where
  "fill_solid n c s = s\<lparr>leds := replicate n c @ drop n (leds s)\<rparr>"

definition FastLED_show :: "firmware \<Rightarrow> firmware" where
  "FastLED_show s = s\<lparr>strip := (brightness s, leds s)\<rparr>"

text \<open>
  Modelled from the spec: the audio driver (the \<open>Audio\<close> class of the I2S audio
  library, not part of the repository), \<open>beginStreaming(assetPath) -> started\<close>,
  \<open>isPlaying()\<close>, \<open>pump()\<close> and \<open>setVolume(level)\<close>. Whether the stream starts
  (\<open>starts\<close>) and whether a pump reaches its end (\<open>ends\<close>) are inputs; the playing
  flag changes in these two calls only.
\<close>
definition audio_isRunning :: "firmware \<Rightarrow> bool" where
  "audio_isRunning s = audioRunning s"

definition audio_loop :: "bool \<Rightarrow> firmware \<Rightarrow> firmware" where
  "audio_loop ends s = (if ends then s\<lparr>audioRunning := False\<rparr> else s)"

definition audio_connecttoFS :: "bool \<Rightarrow> firmware \<Rightarrow> firmware" where
  "audio_connecttoFS starts s = s\<lparr>audioRunning := starts\<rparr>"

definition audio_setVolume :: "int \<Rightarrow> firmware \<Rightarrow> firmware" where
  "audio_setVolume v s = s\<lparr>volume := v\<rparr>"

text \<open>
  Modelled from the spec: the card reader driver (\<open>Adafruit_PN532\<close>, not part of the
  repository), \<open>pollForTag(timeout) -> optional(identifier)\<close>. The outcome of the poll
  is the input \<open>poll\<close>; on success the identifier is written to the buffer and its
  length stored.
\<close>
definition nfc_readPassiveTargetID :: "u32 \<Rightarrow> u8 list option \<Rightarrow> firmware \<Rightarrow> bool \<times> firmware" where
  "nfc_readPassiveTargetID timeout poll s =
     (let s1 = s\<lparr>trace := trace s @ [Poll timeout]\<rparr> in
      case poll of
        None \<Rightarrow> (False, s1)
      | Some ident \<Rightarrow>
          (True, s1\<lparr>uid := take 7 ident @ drop (length ident) (uid s1),
                    uidLength := of_nat (length ident)\<rparr>))"

subsection \<open>Helpers\<close>

definition setAllLeds :: "CRGB \<Rightarrow> firmware \<Rightarrow> firmware" where
  "setAllLeds c s = FastLED_show (fill_solid NUM_LEDS c s)"

definition changeState :: "ReaderState \<Rightarrow> firmware \<Rightarrow> firmware" where
  "changeState newState s = s\<lparr>state := newState, stateStartTick := xTaskGetTickCount s\<rparr>"

definition resetToIdle :: "firmware \<Rightarrow> firmware" where
  "resetToIdle s =
     (let s1 = FastLED_setBrightness MAX_BRIGHTNESS s;
          s2 = setAllLeds CRGB_Black s1;
          s3 = s2\<lparr>chaserIndex := 0\<rparr>;
          s4 = s3\<lparr>chaserDir := 1\<rparr>
      in changeState STATE_IDLE s4)"

definition errorState :: "firmware \<Rightarrow> firmware" where
  "errorState s =
     (let s1 = FastLED_setBrightness MAX_BRIGHTNESS s;
          s2 = setAllLeds CRGB_Red s1
      in changeState STATE_ERROR s2)"

definition transitionToSuccess :: "firmware \<Rightarrow> firmware" where
  "transitionToSuccess s =
     (let s1 = FastLED_setBrightness MAX_BRIGHTNESS s;
          s2 = setAllLeds CRGB_Green s1
      in if \<not> sdOk s2 then resetToIdle (vTaskDelay (msToTicks 250) s2)
         else changeState STATE_SUCCESS (xTaskNotify_audio EVT_PLAY_SUCCESS s2))"

subsection \<open>LED effects\<close>

text \<open>
  The write \<open>leds[chaserIndex]\<close>: inside the array it stores the colour; outside it is
  undefined behaviour in C, which the model leaves as no write (the index never leaves
  the array, see \<open>chaser_inv\<close>).
\<close>
definition led_write :: "CRGB list \<Rightarrow> i8 \<Rightarrow> CRGB \<Rightarrow> CRGB list" where
  "led_write ls i c =
     (if 0 \<le> sint i \<and> sint i < int (length ls) then ls[nat (sint i) := c] else ls)"

text \<open>The test of \<open>runChaserStep\<close>: the step interval has passed.\<close>
definition stepDue :: "firmware \<Rightarrow> bool" where
  "stepDue s \<longleftrightarrow> msToTicks CHASER_INTERVAL_MS \<le> xTaskGetTickCount s - lastStepTick s"

definition runChaserStep :: "firmware \<Rightarrow> firmware" where
  "runChaserStep s =
     (let now = xTaskGetTickCount s in
      if stepDue s then
        let dimColor = nscale8 CHASER_COLOR CHASER_DIM;
            s1 = fill_solid NUM_LEDS dimColor s;
            s2 = s1\<lparr>leds := led_write (leds s1) (chaserIndex s1) CHASER_COLOR\<rparr>;
            s3 = FastLED_show s2;
            s4 = s3\<lparr>chaserIndex := chaserIndex s3 + chaserDir s3\<rparr>;
            s5 = (if int NUM_LEDS - 1 \<le> sint (chaserIndex s4) \<or> sint (chaserIndex s4) \<le> 0
                  then s4\<lparr>chaserDir := - chaserDir s4\<rparr> else s4)
        in s5\<lparr>lastStepTick := now\<rparr>
      else s)"

definition elapsedMs :: "firmware \<Rightarrow> u32" where
  "elapsedMs s = (xTaskGetTickCount s - stateStartTick s) * portTICK_PERIOD_MS"

definition runYellowRamp :: "firmware \<Rightarrow> firmware" where
  "runYellowRamp s =
     (if elapsedMs s \<le> RAMP_MS then
        let b = map_long (uint (elapsedMs s)) 0 (uint RAMP_MS) MIN_BRIGHTNESS MAX_BRIGHTNESS;
            s1 = FastLED_setBrightness b s;
            s2 = fill_solid NUM_LEDS CRGB_Yellow s1
        in FastLED_show s2
      else transitionToSuccess (FastLED_setBrightness MAX_BRIGHTNESS s))"

subsection \<open>The LED/state task\<close>

text \<open>The statement before the loop of \<open>TaskLEDState\<close>.\<close>
definition TaskLEDState_init :: "firmware \<Rightarrow> firmware" where
  "TaskLEDState_init s = changeState STATE_IDLE s"

text \<open>The two tests on the drained notification value \<open>notif\<close>.\<close>
definition handleNotifications :: "u32 \<Rightarrow> firmware \<Rightarrow> firmware" where
  "handleNotifications notif s =
     (let s1 = (if notif AND EVT_CARD_DETECTED \<noteq> 0 then changeState STATE_CARD_DETECTED s else s)
      in if notif AND EVT_AUDIO_DONE \<noteq> 0 then resetToIdle s1 else s1)"

text \<open>The \<open>switch (state)\<close>.\<close>
definition stateMachine :: "firmware \<Rightarrow> firmware" where
  "stateMachine s =
     (case state s of
        STATE_IDLE \<Rightarrow> runChaserStep s
      | STATE_CARD_DETECTED \<Rightarrow> runYellowRamp s
      | STATE_SUCCESS \<Rightarrow> s
      | STATE_ERROR \<Rightarrow> s)"

text \<open>
  One iteration of the loop of \<open>TaskLEDState\<close>, after
  \<open>xTaskNotifyWait(0, UINT32_MAX, &notif, 0)\<close> has drained the value \<open>notif\<close>.
\<close>
definition TaskLEDState_iter :: "u32 \<Rightarrow> firmware \<Rightarrow> firmware" where
  "TaskLEDState_iter notif s =
     vTaskDelay (msToTicks 10) (stateMachine (handleNotifications notif s))"

subsection \<open>The card sensor task\<close>

text \<open>One iteration of the loop of \<open>TaskNFC\<close> (the serial prints are left out).\<close>
definition TaskNFC_iter :: "u8 list option \<Rightarrow> firmware \<Rightarrow> firmware" where
  "TaskNFC_iter poll s =
     (if state s = STATE_IDLE then
        let (success, s1) = nfc_readPassiveTargetID 50 poll s in
        if success then vTaskDelay (msToTicks 300) (xTaskNotify_led EVT_CARD_DETECTED s1)
        else vTaskDelay (msToTicks 40) s1
      else vTaskDelay (msToTicks 80) s)"

subsection \<open>The audio task\<close>

text \<open>The fade-in loop \<open>for (int v = 0; v <= targetVol; v++)\<close>.\<close>
definition fadeIn :: "firmware \<Rightarrow> firmware" where
  "fadeIn s = fold (\<lambda>v s. vTaskDelay (pdMS_TO_TICKS 5) (audio_setVolume v s)) [0..targetVol] s"

text \<open>The body of \<open>if (notif & EVT_PLAY_SUCCESS)\<close>.\<close>
definition playRequest :: "bool \<Rightarrow> firmware \<Rightarrow> firmware" where
  "playRequest starts s =
     (let s1 = audio_setVolume 0 s;
          s2 = vTaskDelay (pdMS_TO_TICKS 10) s1;
          s3 = audio_connecttoFS starts s2;
          s4 = vTaskDelay (pdMS_TO_TICKS 20) s3
      in if \<not> audio_isRunning s4
         then xTaskNotify_led EVT_AUDIO_DONE (audio_setVolume targetVol s4)
         else fadeIn s4)"

text \<open>The end-of-playback detection.\<close>
definition detectEnd :: "firmware \<Rightarrow> firmware" where
  "detectEnd s =
     (let running = audio_isRunning s;
          s1 = (if wasRunning s \<and> \<not> running then xTaskNotify_led EVT_AUDIO_DONE s else s)
      in s1\<lparr>wasRunning := running\<rparr>)"

text \<open>
  One iteration of the loop of \<open>TaskAudio\<close>; \<open>notif\<close> is the value drained by
  \<open>xTaskNotifyWait\<close>, \<open>ends\<close> and \<open>starts\<close> are the driver's inputs.
\<close>
definition TaskAudio_iter :: "u32 \<Rightarrow> bool \<Rightarrow> bool \<Rightarrow> firmware \<Rightarrow> firmware" where
  "TaskAudio_iter notif ends starts s =
     (let s1 = (if audio_isRunning s then audio_loop ends s else s);
          s2 = (if notif AND EVT_PLAY_SUCCESS \<noteq> 0 then playRequest starts s1 else s1);
          s3 = detectEnd s2
      in vTaskDelay (msToTicks 2) s3)"

text \<open>Successive iterations of the audio task, each with its drained value and inputs.\<close>
fun TaskAudio_run :: "(u32 \<times> bool \<times> bool) list \<Rightarrow> firmware \<Rightarrow> firmware" where
  "TaskAudio_run [] s = s"
| "TaskAudio_run ((notif, ends, starts) # rest) s =
     TaskAudio_run rest (TaskAudio_iter notif ends starts s)"

text \<open>The number of times the "playback done" flag was raised.\<close>
definition raisesDone :: "action \<Rightarrow> bool" where
  "raisesDone a = (case a of NotifyLed bits \<Rightarrow> bits AND EVT_AUDIO_DONE \<noteq> 0 | _ \<Rightarrow> False)"

definition doneCount :: "firmware \<Rightarrow> nat" where
  "doneCount s = length (filter raisesDone (trace s))"

text \<open>The number of play requests sent to the audio task.\<close>
definition raisesPlay :: "action \<Rightarrow> bool" where
  "raisesPlay a = (case a of NotifyAudio bits \<Rightarrow> bits AND EVT_PLAY_SUCCESS \<noteq> 0 | _ \<Rightarrow> False)"

definition playCount :: "firmware \<Rightarrow> nat" where
  "playCount s = length (filter raisesPlay (trace s))"

subsection \<open>Boot\<close>

text \<open>
  The globals as the static initialisers leave them, at tick \<open>t0\<close>; FastLED starts with
  full brightness, and nothing plays.
\<close>
definition boot :: "u32 \<Rightarrow> firmware" where
  "boot t0 = \<lparr> state = STATE_IDLE, stateStartTick = 0, sdOk = False,
               chaserIndex = 0, chaserDir = 1, lastStepTick = 0,
               leds = replicate NUM_LEDS CRGB_Black, brightness = 255,
               strip = (255, replicate NUM_LEDS CRGB_Black),
               tickCount = t0, ledNotify = 0, audioNotify = 0,
               audioRunning = False, volume = 0, wasRunning = False,
               uid = replicate 7 0, uidLength = 0, trace = [] \<rparr>"

text \<open>
  \<open>setup()\<close> up to the creation of the tasks: \<open>mounted\<close> is the result of
  \<open>SD.begin\<close>, \<open>version\<close> that of \<open>nfc.getFirmwareVersion()\<close>.
\<close>
definition setup_freertos :: "bool \<Rightarrow> u32 \<Rightarrow> firmware \<Rightarrow> firmware" where
  "setup_freertos mounted version s =
     (let s1 = FastLED_setBrightness MAX_BRIGHTNESS s;
          s2 = fill_solid NUM_LEDS CRGB_Black s1;
          s3 = FastLED_show s2;
          s4 = s3\<lparr>sdOk := mounted\<rparr>;
          s5 = audio_setVolume targetVol s4
      in if version = 0 then errorState s5 else s5)"

section \<open>The three tasks together\<close>

text \<open>
  The tasks are interleaved one loop iteration at a time, and any number of ticks may
  pass between two iterations (\<open>Elapse\<close>). A tick of a task drains its own
  notification value and runs one iteration on it; the audio task pumps the driver before
  it drains, which does not touch the notification value, so its drain is taken first
  here. \<open>AudioTick\<close> carries the driver's inputs \<open>ends\<close> and \<open>starts\<close>,
  \<open>NfcTick\<close> the outcome of the poll.
\<close>
datatype sched = LedTick | AudioTick bool bool | NfcTick "u8 list option" | Elapse u32

fun sys_step :: "sched \<Rightarrow> firmware \<Rightarrow> firmware" where
  "sys_step LedTick s = TaskLEDState_iter (ledNotify s) (s\<lparr>ledNotify := 0\<rparr>)"
| "sys_step (AudioTick ends starts) s =
     TaskAudio_iter (audioNotify s) ends starts (s\<lparr>audioNotify := 0\<rparr>)"
| "sys_step (NfcTick poll) s = TaskNFC_iter poll s"
| "sys_step (Elapse dt) s = s\<lparr>tickCount := tickCount s + dt\<rparr>"

fun sys_run :: "sched list \<Rightarrow> firmware \<Rightarrow> firmware" where
  "sys_run [] s = s"
| "sys_run (e # es) s = sys_run es (sys_step e s)"

text \<open>The system once \<open>setup()\<close> has run and the LED task has started.\<close>
definition sys_boot :: "bool \<Rightarrow> u32 \<Rightarrow> u32 \<Rightarrow> firmware" where
  "sys_boot mounted version t0 = TaskLEDState_init (setup_freertos mounted version (boot t0))"

section \<open>The single-loop variant (example 01)\<close>

record basic =
  state01 :: ReaderState
  stateStart :: u32
  leds01 :: "CRGB list"
  brightness01 :: u8
  strip01 :: "u8 \<times> CRGB list"
  chaserIndex01 :: i8
  chaserDir01 :: i8
  millis :: u32

definition changeState_basic :: "ReaderState \<Rightarrow> basic \<Rightarrow> basic" where
  "changeState_basic newState s = s\<lparr>state01 := newState, stateStart := millis s\<rparr>"

definition fill_solid_basic :: "nat \<Rightarrow> CRGB \<Rightarrow> basic \<Rightarrow> basic" where
  "fill_solid_basic n c s = s\<lparr>leds01 := replicate n c @ drop n (leds01 s)\<rparr>"

definition show_basic :: "basic \<Rightarrow> basic" where
  "show_basic s = s\<lparr>strip01 := (brightness01 s, leds01 s)\<rparr>"

definition resetToIdle_basic :: "basic \<Rightarrow> basic" where
  "resetToIdle_basic s =
     (let s1 = fill_solid_basic NUM_LEDS CRGB_Black s;
          s2 = s1\<lparr>brightness01 := word_of_int MAX_BRIGHTNESS\<rparr>;
          s3 = show_basic s2;
          s4 = s3\<lparr>chaserIndex01 := 0\<rparr>;
          s5 = s4\<lparr>chaserDir01 := 1\<rparr>
      in changeState_basic STATE_IDLE s5)"

definition errorState_basic :: "basic \<Rightarrow> basic" where
  "errorState_basic s =
     (let s1 = fill_solid_basic NUM_LEDS CRGB_Red s;
          s2 = show_basic s1
      in changeState_basic STATE_ERROR s2)"

text \<open>\<open>setup()\<close> of the single-loop variant; \<open>version\<close> as above.\<close>
definition setup_basic :: "u32 \<Rightarrow> basic \<Rightarrow> basic" where
  "setup_basic version s =
     (let s1 = s\<lparr>brightness01 := word_of_int MAX_BRIGHTNESS\<rparr>;
          s2 = fill_solid_basic NUM_LEDS CRGB_Black s1;
          s3 = show_basic s2;
          s4 = (if version = 0 then errorState_basic s3 else s3)
      in changeState_basic STATE_IDLE s4)"

definition boot_basic :: "u32 \<Rightarrow> basic" where
  "boot_basic t0 = \<lparr> state01 = STATE_IDLE, stateStart = 0,
                     leds01 = replicate NUM_LEDS CRGB_Black, brightness01 = 255,
                     strip01 = (255, replicate NUM_LEDS CRGB_Black),
                     chaserIndex01 = 0, chaserDir01 = 1, millis = t0 \<rparr>"

section \<open>Derived notions used in the statements\<close>

text \<open>
  The pairs of chaser index and direction that the bouncing visits: moving up on
  positions \<open>0 .. NUM_LEDS - 2\<close>, moving down on positions \<open>1 .. NUM_LEDS - 1\<close>.
\<close>
definition chaser_inv :: "firmware \<Rightarrow> bool" where
  "chaser_inv s \<longleftrightarrow>
     (chaserDir s = 1 \<and> 0 \<le> sint (chaserIndex s) \<and> sint (chaserIndex s) \<le> int NUM_LEDS - 2) \<or>
     (chaserDir s = - 1 \<and> 1 \<le> sint (chaserIndex s) \<and> sint (chaserIndex s) \<le> int NUM_LEDS - 1)"

text \<open>
  Example states, from a boot at tick 0. First, the storage mounts and the reader is not
  found: \<open>setup()\<close> leaves the machine in Error.
\<close>
definition ex_error :: firmware where
  "ex_error = setup_freertos True 0 (boot 0)"

text \<open>
  The storage mounts and the reader is found; a card is detected and the LED task has
  drained the flag.
\<close>
definition ex_detected :: firmware where
  "ex_detected = sys_run [NfcTick (Some [4, 3, 2, 1]), LedTick] (sys_boot True 1 0)"

text \<open>The same, exactly 2000 ms after the state was entered.\<close>
definition ex_ramp_end :: firmware where
  "ex_ramp_end = sys_step (Elapse 1990) ex_detected"

text \<open>The same, one LED tick after the ramp: the machine waits in Success.\<close>
definition ex_success :: firmware where
  "ex_success = sys_run [Elapse 2000, LedTick] ex_detected"

text \<open>The same with the storage not mounted, 2001 ms after the state was entered.\<close>
definition ex_nosd_ramp_over :: firmware where
  "ex_nosd_ramp_over =
     sys_run [NfcTick (Some [4, 3, 2, 1]), LedTick, Elapse 1991] (sys_boot False 1 0)"

text \<open>The same with the storage mounted, 2001 ms after the state was entered.\<close>
definition ex_ramp_over :: firmware where
  "ex_ramp_over = sys_step (Elapse 1991) ex_detected"

text \<open>
  Invariants of the runs of the three tasks: the storage flag keeps the value \<open>setup()\<close>
  gave it and the state is Success only when it is set; and, when the storage did not
  mount, nothing is ever requested from, played by or reported by the audio task.
\<close>
definition storage_inv :: "bool \<Rightarrow> firmware \<Rightarrow> bool" where
  "storage_inv mounted s \<longleftrightarrow> sdOk s = mounted \<and> (state s = STATE_SUCCESS \<longrightarrow> sdOk s)"

definition nosd_inv :: "firmware \<Rightarrow> bool" where
  "nosd_inv s \<longleftrightarrow> \<not> sdOk s \<and> audioNotify s = 0 \<and> \<not> audioRunning s \<and> \<not> wasRunning s \<and>
     doneCount s = 0 \<and> playCount s = 0 \<and> state s \<noteq> STATE_SUCCESS"



text \<open>
  The machine rests in Error: nothing is pending for either task and nothing plays, as
  \<open>setup()\<close> leaves it when the reader is not found.
\<close>
definition error_inv :: "firmware \<Rightarrow> bool" where
  "error_inv s \<longleftrightarrow> state s = STATE_ERROR \<and> ledNotify s = 0 \<and> audioNotify s = 0 \<and>
     \<not> audioRunning s \<and> \<not> wasRunning s"




section \<open>Unfolding\<close>

lemmas cfg_defs = NUM_LEDS_def MIN_BRIGHTNESS_def MAX_BRIGHTNESS_def CHASER_INTERVAL_MS_def
  CHASER_DIM_def RAMP_MS_def targetVol_def EVT_CARD_DETECTED_def EVT_PLAY_SUCCESS_def
  EVT_AUDIO_DONE_def configTICK_RATE_HZ_def pdMS_TO_TICKS_def portTICK_PERIOD_MS_def
  msToTicks_def

lemmas prim_defs = xTaskGetTickCount_def vTaskDelay_def xTaskNotify_led_def
  xTaskNotify_audio_def FastLED_setBrightness_def fill_solid_def FastLED_show_def
  setAllLeds_def changeState_def audio_isRunning_def audio_loop_def audio_connecttoFS_def
  audio_setVolume_def

lemmas run_defs = sys_boot_def TaskLEDState_init_def setup_freertos_def boot_def errorState_def
  TaskLEDState_iter_def handleNotifications_def stateMachine_def runChaserStep_def stepDue_def
  runYellowRamp_def elapsedMs_def transitionToSuccess_def resetToIdle_def TaskNFC_iter_def
  nfc_readPassiveTargetID_def led_write_def nscale8_def scale8_def map_long_def
  CHASER_COLOR_def

section \<open>The helpers as record updates\<close>

lemma resetToIdle_eq:
  "resetToIdle s = s\<lparr>state := STATE_IDLE, stateStartTick := tickCount s, chaserIndex := 0,
      chaserDir := 1, leds := replicate 8 CRGB_Black @ drop 8 (leds s), brightness := 65,
      strip := (65, replicate 8 CRGB_Black @ drop 8 (leds s))\<rparr>"
  by (simp add: resetToIdle_def prim_defs cfg_defs Let_def)

lemma transitionToSuccess_eq:
  "transitionToSuccess s =
    (if sdOk s then
       s\<lparr>state := STATE_SUCCESS, stateStartTick := tickCount s,
         leds := replicate 8 CRGB_Green @ drop 8 (leds s), brightness := 65,
         strip := (65, replicate 8 CRGB_Green @ drop 8 (leds s)),
         audioNotify := audioNotify s OR EVT_PLAY_SUCCESS,
         trace := trace s @ [NotifyAudio EVT_PLAY_SUCCESS]\<rparr>
     else
       s\<lparr>state := STATE_IDLE, stateStartTick := tickCount s + 250, chaserIndex := 0,
         chaserDir := 1, leds := replicate 8 CRGB_Black @ drop 8 (leds s), brightness := 65,
         strip := (65, replicate 8 CRGB_Black @ drop 8 (leds s)),
         tickCount := tickCount s + 250, trace := trace s @ [Delay 250]\<rparr>)"
  by (simp add: transitionToSuccess_def resetToIdle_eq prim_defs cfg_defs Let_def)

lemma runChaserStep_state: "state (runChaserStep s) = state s"
  by (simp add: runChaserStep_def prim_defs Let_def)

lemma vTaskDelay_state: "state (vTaskDelay n s) = state s"
  by (simp add: vTaskDelay_def)

section \<open>The examples evaluated\<close>

lemma ex_error_state: "state ex_error = STATE_ERROR"
  by (simp add: ex_error_def run_defs prim_defs cfg_defs Let_def)

lemma ex_detected_fields:
  "state ex_detected = STATE_CARD_DETECTED \<and> stateStartTick ex_detected = 300 \<and>
   tickCount ex_detected = 310 \<and> sdOk ex_detected \<and>
   trace ex_detected = [Poll 50, NotifyLed 1, Delay 300, Delay 10]"
  by (simp add: ex_detected_def run_defs prim_defs cfg_defs Let_def)

lemma ex_success_state: "state ex_success = STATE_SUCCESS"
  by (simp add: ex_success_def ex_detected_def run_defs prim_defs cfg_defs Let_def)

lemma flag_bits:
  "EVT_CARD_DETECTED AND EVT_CARD_DETECTED \<noteq> 0" "EVT_CARD_DETECTED AND EVT_AUDIO_DONE = 0"
  "EVT_AUDIO_DONE AND EVT_AUDIO_DONE \<noteq> 0" "EVT_AUDIO_DONE AND EVT_CARD_DETECTED = 0"
  "EVT_PLAY_SUCCESS AND EVT_PLAY_SUCCESS \<noteq> 0"
  "(0::u32) AND EVT_CARD_DETECTED = 0" "(0::u32) AND EVT_AUDIO_DONE = 0"
  "(0::u32) AND EVT_PLAY_SUCCESS = 0"
  "EVT_CARD_DETECTED \<noteq> 0" "EVT_AUDIO_DONE \<noteq> 0" "EVT_PLAY_SUCCESS \<noteq> 0"
  by (simp_all add: cfg_defs)

section \<open>Reset to idle\<close>

text \<open>
  C8: the reset-to-idle operation \<open>resetToIdle\<close>, from any state of the globals,
  establishes state Idle, the maximum brightness, a strip whose \<open>NUM_LEDS\<close> positions
  are black (in the pixel buffer and in the frame shown), chaser index 0 and chaser
  direction +1, in the FreeRTOS variant and in the single-loop variant alike.
\<close>
theorem resetToIdle_post:
  "state (resetToIdle s) = STATE_IDLE \<and>
   brightness (resetToIdle s) = word_of_int MAX_BRIGHTNESS \<and>
   take NUM_LEDS (leds (resetToIdle s)) = replicate NUM_LEDS CRGB_Black \<and>
   strip (resetToIdle s) = (word_of_int MAX_BRIGHTNESS, leds (resetToIdle s)) \<and>
   chaserIndex (resetToIdle s) = 0 \<and> sint (chaserDir (resetToIdle s)) = 1 \<and>
   state01 (resetToIdle_basic b) = STATE_IDLE \<and>
   brightness01 (resetToIdle_basic b) = word_of_int MAX_BRIGHTNESS \<and>
   take NUM_LEDS (leds01 (resetToIdle_basic b)) = replicate NUM_LEDS CRGB_Black \<and>
   strip01 (resetToIdle_basic b) = (word_of_int MAX_BRIGHTNESS, leds01 (resetToIdle_basic b)) \<and>
   chaserIndex01 (resetToIdle_basic b) = 0 \<and> sint (chaserDir01 (resetToIdle_basic b)) = 1"
  by (simp add: resetToIdle_eq resetToIdle_basic_def changeState_basic_def
      fill_solid_basic_def show_basic_def cfg_defs Let_def)

section \<open>The flags in the LED task\<close>

lemma handle_done:
  "notif AND EVT_AUDIO_DONE \<noteq> 0 \<Longrightarrow>
   handleNotifications notif s =
     resetToIdle (if notif AND EVT_CARD_DETECTED \<noteq> 0 then changeState STATE_CARD_DETECTED s else s)"
  by (simp add: handleNotifications_def Let_def)

lemma iter_done:
  assumes "notif AND EVT_AUDIO_DONE \<noteq> 0"
  shows "TaskLEDState_iter notif s =
           vTaskDelay (msToTicks 10) (runChaserStep (handleNotifications notif s))"
    and "state (TaskLEDState_iter notif s) = STATE_IDLE"
    and "stateStartTick (TaskLEDState_iter notif s) = tickCount s"
    and "brightness (TaskLEDState_iter notif s) = 65"
  using assms
  by (simp_all add: handle_done TaskLEDState_iter_def stateMachine_def resetToIdle_eq
      runChaserStep_state vTaskDelay_state)
    (simp_all add: runChaserStep_def prim_defs cfg_defs Let_def)

lemma iter_card:
  assumes "notif AND EVT_CARD_DETECTED \<noteq> 0" and "notif AND EVT_AUDIO_DONE = 0"
  shows "state (TaskLEDState_iter notif s) = STATE_CARD_DETECTED"
    and "stateStartTick (TaskLEDState_iter notif s) = tickCount s"
  using assms
  by (simp_all add: TaskLEDState_iter_def handleNotifications_def stateMachine_def)
    (simp_all add: runYellowRamp_def elapsedMs_def prim_defs cfg_defs Let_def)

lemma iter_quiet:
  assumes "notif AND EVT_CARD_DETECTED = 0" and "notif AND EVT_AUDIO_DONE = 0"
  shows "TaskLEDState_iter notif s = vTaskDelay (msToTicks 10) (stateMachine s)"
  using assms by (simp add: TaskLEDState_iter_def handleNotifications_def)

text \<open>
  C10: a tick that drains the "playback done" flag runs \<open>resetToIdle\<close> whatever the
  state was (after the "card detected" test, if that flag was drained too), then takes
  the Idle branch of the switch: the tick ends in Idle with the entry time reset and the
  brightness at its maximum. In particular a stray flag during the ramp ends the ramp.
\<close>
theorem playback_done_resets_from_every_state:
  assumes "notif AND EVT_AUDIO_DONE \<noteq> 0"
  shows "handleNotifications notif s =
           resetToIdle (if notif AND EVT_CARD_DETECTED \<noteq> 0
                        then changeState STATE_CARD_DETECTED s else s) \<and>
         TaskLEDState_iter notif s =
           vTaskDelay (msToTicks 10) (runChaserStep (handleNotifications notif s)) \<and>
         state (TaskLEDState_iter notif s) = STATE_IDLE \<and>
         stateStartTick (TaskLEDState_iter notif s) = tickCount s \<and>
         brightness (TaskLEDState_iter notif s) = word_of_int MAX_BRIGHTNESS"
  using handle_done[OF assms] iter_done[OF assms] by (simp add: MAX_BRIGHTNESS_def)

theorem playback_done_resets_witness:
  "EVT_AUDIO_DONE AND EVT_AUDIO_DONE \<noteq> 0 \<and> state ex_detected = STATE_CARD_DETECTED \<and>
   state (TaskLEDState_iter EVT_AUDIO_DONE ex_detected) = STATE_IDLE \<and>
   state (TaskLEDState_iter EVT_AUDIO_DONE ex_success) = STATE_IDLE \<and>
   state (TaskLEDState_iter EVT_AUDIO_DONE ex_error) = STATE_IDLE \<and>
   state (TaskLEDState_iter EVT_AUDIO_DONE (sys_boot True 1 0)) = STATE_IDLE"
proof -
  have h: "EVT_AUDIO_DONE AND EVT_AUDIO_DONE \<noteq> 0" by (simp add: flag_bits)
  have "state (TaskLEDState_iter EVT_AUDIO_DONE ex_detected) = STATE_IDLE"
    using playback_done_resets_from_every_state[OF h, of ex_detected] by blast
  moreover have "state (TaskLEDState_iter EVT_AUDIO_DONE ex_success) = STATE_IDLE"
    using playback_done_resets_from_every_state[OF h, of ex_success] by blast
  moreover have "state (TaskLEDState_iter EVT_AUDIO_DONE ex_error) = STATE_IDLE"
    using playback_done_resets_from_every_state[OF h, of ex_error] by blast
  moreover have "state (TaskLEDState_iter EVT_AUDIO_DONE (sys_boot True 1 0)) = STATE_IDLE"
    using playback_done_resets_from_every_state[OF h, of "sys_boot True 1 0"] by blast
  ultimately show ?thesis using h ex_detected_fields by blast
qed

section \<open>Counting the raised flags\<close>

lemma raises_simps [simp]:
  "\<not> raisesDone (Delay n)" "\<not> raisesDone (Poll t)" "\<not> raisesDone (NotifyAudio b)"
  "raisesDone (NotifyLed EVT_AUDIO_DONE)" "\<not> raisesDone (NotifyLed EVT_CARD_DETECTED)"
  "\<not> raisesPlay (Delay n)" "\<not> raisesPlay (Poll t)" "\<not> raisesPlay (NotifyLed b)"
  "raisesPlay (NotifyAudio EVT_PLAY_SUCCESS)"
  by (simp_all add: raisesDone_def raisesPlay_def cfg_defs)

lemma count_upd:
  "doneCount (s\<lparr>ledNotify := x\<rparr>) = doneCount s"
  "doneCount (s\<lparr>audioNotify := y\<rparr>) = doneCount s"
  "doneCount (s\<lparr>tickCount := z\<rparr>) = doneCount s"
  "playCount (s\<lparr>ledNotify := x\<rparr>) = playCount s"
  "playCount (s\<lparr>audioNotify := y\<rparr>) = playCount s"
  "playCount (s\<lparr>tickCount := z\<rparr>) = playCount s"
  by (simp_all add: doneCount_def playCount_def)

section \<open>What an iteration of the LED task keeps\<close>

lemma runChaserStep_keeps:
  "sdOk (runChaserStep s) = sdOk s"
  "audioRunning (runChaserStep s) = audioRunning s"
  "wasRunning (runChaserStep s) = wasRunning s"
  "ledNotify (runChaserStep s) = ledNotify s"
  "audioNotify (runChaserStep s) = audioNotify s"
  "trace (runChaserStep s) = trace s"
  "doneCount (runChaserStep s) = doneCount s"
  "playCount (runChaserStep s) = playCount s"
  by (simp_all add: runChaserStep_def doneCount_def playCount_def prim_defs Let_def)

lemma runYellowRamp_keeps:
  "sdOk (runYellowRamp s) = sdOk s"
  "audioRunning (runYellowRamp s) = audioRunning s"
  "wasRunning (runYellowRamp s) = wasRunning s"
  "ledNotify (runYellowRamp s) = ledNotify s"
  "doneCount (runYellowRamp s) = doneCount s"
  "chaser_inv s \<Longrightarrow> chaser_inv (runYellowRamp s)"
  by (simp_all add: runYellowRamp_def transitionToSuccess_eq doneCount_def chaser_inv_def prim_defs Let_def NUM_LEDS_def)

lemma runYellowRamp_state:
  "state (runYellowRamp s) =
     (if elapsedMs s \<le> RAMP_MS then state s else if sdOk s then STATE_SUCCESS else STATE_IDLE)"
  by (simp add: runYellowRamp_def transitionToSuccess_eq prim_defs Let_def)

lemma runYellowRamp_nosd:
  "\<not> sdOk s \<Longrightarrow> audioNotify (runYellowRamp s) = audioNotify s"
  "\<not> sdOk s \<Longrightarrow> playCount (runYellowRamp s) = playCount s"
  by (simp_all add: runYellowRamp_def transitionToSuccess_eq playCount_def prim_defs Let_def)

lemma handle_keeps:
  "sdOk (handleNotifications notif s) = sdOk s"
  "audioRunning (handleNotifications notif s) = audioRunning s"
  "wasRunning (handleNotifications notif s) = wasRunning s"
  "ledNotify (handleNotifications notif s) = ledNotify s"
  "audioNotify (handleNotifications notif s) = audioNotify s"
  "trace (handleNotifications notif s) = trace s"
  "doneCount (handleNotifications notif s) = doneCount s"
  "playCount (handleNotifications notif s) = playCount s"
  by (simp_all add: handleNotifications_def resetToIdle_eq doneCount_def playCount_def prim_defs Let_def)

lemma handle_state:
  "state (handleNotifications notif s) =
     (if notif AND EVT_AUDIO_DONE \<noteq> 0 then STATE_IDLE
      else if notif AND EVT_CARD_DETECTED \<noteq> 0 then STATE_CARD_DETECTED else state s)"
  by (simp add: handleNotifications_def resetToIdle_eq prim_defs Let_def)

lemma handle_chaser: "chaser_inv s \<Longrightarrow> chaser_inv (handleNotifications notif s)"
  by (simp add: handleNotifications_def resetToIdle_eq chaser_inv_def prim_defs Let_def NUM_LEDS_def)

lemma stateMachine_keeps:
  "sdOk (stateMachine s) = sdOk s"
  "audioRunning (stateMachine s) = audioRunning s"
  "wasRunning (stateMachine s) = wasRunning s"
  "ledNotify (stateMachine s) = ledNotify s"
  "doneCount (stateMachine s) = doneCount s"
  by (simp_all add: stateMachine_def runChaserStep_keeps runYellowRamp_keeps
      split: ReaderState.splits)

lemma stateMachine_success:
  "state (stateMachine s) = STATE_SUCCESS \<Longrightarrow> sdOk s \<or> state s = STATE_SUCCESS"
  by (simp add: stateMachine_def runChaserStep_state runYellowRamp_state
      split: ReaderState.splits if_splits)

lemma stateMachine_nosd:
  "\<not> sdOk s \<Longrightarrow> audioNotify (stateMachine s) = audioNotify s"
  "\<not> sdOk s \<Longrightarrow> playCount (stateMachine s) = playCount s"
  by (simp_all add: stateMachine_def runChaserStep_keeps runYellowRamp_nosd
      split: ReaderState.splits)

lemma delay_keeps:
  "audioRunning (vTaskDelay n s) = audioRunning s"
  "wasRunning (vTaskDelay n s) = wasRunning s"
  "doneCount (vTaskDelay n s) = doneCount s"
  "playCount (vTaskDelay n s) = playCount s"
  "ledNotify (vTaskDelay n s) = ledNotify s"
  "audioNotify (vTaskDelay n s) = audioNotify s"
  "state (vTaskDelay n s) = state s"
  "sdOk (vTaskDelay n s) = sdOk s"
  "chaserIndex (vTaskDelay n s) = chaserIndex s"
  "chaserDir (vTaskDelay n s) = chaserDir s"
  "chaser_inv (vTaskDelay n s) = chaser_inv s"
  by (simp_all add: doneCount_def playCount_def chaser_inv_def prim_defs)

lemma led_iter_keeps:
  "sdOk (TaskLEDState_iter notif s) = sdOk s"
  "audioRunning (TaskLEDState_iter notif s) = audioRunning s"
  "wasRunning (TaskLEDState_iter notif s) = wasRunning s"
  "ledNotify (TaskLEDState_iter notif s) = ledNotify s"
  "doneCount (TaskLEDState_iter notif s) = doneCount s"
  by (simp_all add: TaskLEDState_iter_def delay_keeps stateMachine_keeps handle_keeps)

lemma led_iter_success:
  assumes "state (TaskLEDState_iter notif s) = STATE_SUCCESS"
  shows "sdOk s \<or> state s = STATE_SUCCESS"
proof -
  have "state (stateMachine (handleNotifications notif s)) = STATE_SUCCESS"
    using assms by (simp add: TaskLEDState_iter_def delay_keeps)
  from stateMachine_success[OF this] show ?thesis
    by (simp add: handle_keeps handle_state split: if_splits)
qed

lemma led_iter_nosd:
  assumes "\<not> sdOk s"
  shows "audioNotify (TaskLEDState_iter notif s) = audioNotify s"
    and "playCount (TaskLEDState_iter notif s) = playCount s"
  using assms
  by (simp_all add: TaskLEDState_iter_def delay_keeps stateMachine_nosd handle_keeps)

section \<open>The chaser\<close>

lemma sint_i8_pred: "- 127 \<le> sint (a::i8) \<Longrightarrow> sint (a - 1) = sint a - 1"
proof -
  assume a: "- 127 \<le> sint a"
  have "sint a < 128" using sint_lt[of a] by simp
  then show ?thesis using a by (simp add: sint_word_ariths signed_take_bit_int_eq_self)
qed

lemma sint_i8_succ: "sint (a::i8) \<le> 126 \<Longrightarrow> sint (a + 1) = sint a + 1"
proof -
  assume a: "sint a \<le> 126"
  have "- 128 \<le> sint a" using sint_ge[of a] by simp
  then show ?thesis using a by (simp add: sint_word_ariths signed_take_bit_int_eq_self)
qed

lemma chaser_fields:
  "chaserIndex (runChaserStep s) = (if stepDue s then chaserIndex s + chaserDir s else chaserIndex s)"
  "chaserDir (runChaserStep s) =
     (if stepDue s \<and> (int NUM_LEDS - 1 \<le> sint (chaserIndex s + chaserDir s) \<or>
                        sint (chaserIndex s + chaserDir s) \<le> 0)
      then - chaserDir s else chaserDir s)"
  by (simp_all add: runChaserStep_def prim_defs Let_def)

lemma chaser_inv_step: "chaser_inv s \<Longrightarrow> chaser_inv (runChaserStep s)"
  unfolding chaser_inv_def chaser_fields
  by (elim disjE conjE) (simp_all add: sint_i8_succ sint_i8_pred NUM_LEDS_def)

lemma stateMachine_chaser: "chaser_inv s \<Longrightarrow> chaser_inv (stateMachine s)"
  by (simp add: stateMachine_def chaser_inv_step runYellowRamp_keeps split: ReaderState.splits)

lemma led_iter_chaser: "chaser_inv s \<Longrightarrow> chaser_inv (TaskLEDState_iter notif s)"
  by (simp add: TaskLEDState_iter_def delay_keeps stateMachine_chaser handle_chaser)

section \<open>The ramp\<close>

lemma map_long_ramp: "0 \<le> x \<Longrightarrow> map_long x 0 2000 2 65 = 2 + (x * 63) div 2000"
  by (simp add: map_long_def Let_def signed_divide_int_def sgn_if)

lemma ramp_level_bounds:
  "0 \<le> x \<Longrightarrow> x \<le> 2000 \<Longrightarrow> 0 \<le> 2 + (x * 63) div 2000 \<and> 2 + (x * 63) div 2000 \<le> (65::int)"
  by auto

lemma uint_u8_of_int: "0 \<le> k \<Longrightarrow> k < 256 \<Longrightarrow> uint (word_of_int k :: u8) = k"
  by (simp add: uint_word_of_int take_bit_int_eq_self)

lemma ramp_brightness_in:
  assumes "elapsedMs s \<le> RAMP_MS"
  shows "uint (brightness (runYellowRamp s)) = 2 + (uint (elapsedMs s) * 63) div 2000"
proof -
  let ?x = "uint (elapsedMs s)"
  have x: "0 \<le> ?x" "?x \<le> 2000" using assms by (simp_all add: RAMP_MS_def word_le_def)
  have b: "0 \<le> 2 + (?x * 63) div 2000" "2 + (?x * 63) div 2000 \<le> 65"
    using ramp_level_bounds[OF x] by simp_all
  have "brightness (runYellowRamp s) = word_of_int (2 + (?x * 63) div 2000)"
    using assms x
    by (simp add: runYellowRamp_def prim_defs Let_def map_long_ramp MIN_BRIGHTNESS_def
        MAX_BRIGHTNESS_def RAMP_MS_def)
  moreover have "uint (word_of_int (2 + (?x * 63) div 2000) :: u8) = 2 + (?x * 63) div 2000"
    using b by (intro uint_u8_of_int) simp_all
  ultimately show ?thesis by simp
qed

lemma ramp_brightness_out:
  assumes "\<not> elapsedMs s \<le> RAMP_MS"
  shows "brightness (runYellowRamp s) = 65"
  using assms by (simp add: runYellowRamp_def transitionToSuccess_eq prim_defs)

lemma ramp_brightness_uint:
  "uint (brightness (runYellowRamp s)) =
     (if elapsedMs s \<le> RAMP_MS then 2 + (uint (elapsedMs s) * 63) div 2000 else 65)"
  by (simp add: ramp_brightness_in ramp_brightness_out)

lemma ramp_mono:
  assumes "elapsedMs s \<le> elapsedMs s'"
  shows "brightness (runYellowRamp s) \<le> brightness (runYellowRamp s')"
proof -
  have le: "uint (elapsedMs s) \<le> uint (elapsedMs s')" using assms by (simp add: word_le_def)
  have "uint (brightness (runYellowRamp s)) \<le> uint (brightness (runYellowRamp s'))"
  proof (cases "elapsedMs s' \<le> RAMP_MS")
    case True
    then have "elapsedMs s \<le> RAMP_MS" using assms by simp
    moreover have "(uint (elapsedMs s) * 63) div 2000 \<le> (uint (elapsedMs s') * 63) div 2000"
      using le by (intro zdiv_mono1) simp_all
    ultimately show ?thesis using True by (simp add: ramp_brightness_uint)
  next
    case False
    have "0 \<le> uint (elapsedMs s)" by simp
    then show ?thesis using False ramp_level_bounds[of "uint (elapsedMs s)"]
      by (auto simp add: ramp_brightness_uint RAMP_MS_def word_le_def)
  qed
  then show ?thesis by (simp add: word_le_def)
qed

lemma ramp_at_window: "elapsedMs s = RAMP_MS \<Longrightarrow> brightness (runYellowRamp s) = 65"
proof -
  assume a: "elapsedMs s = RAMP_MS"
  then have "uint (brightness (runYellowRamp s)) = 65"
    by (simp add: ramp_brightness_uint) (simp add: RAMP_MS_def)
  then have "uint (brightness (runYellowRamp s)) = uint (65 :: u8)" by simp
  then show ?thesis by (simp only: word_uint_eq_iff)
qed

lemma ramp_shown: "fst (strip (runYellowRamp s)) = brightness (runYellowRamp s)"
  by (simp add: runYellowRamp_def transitionToSuccess_eq prim_defs Let_def)

lemma ramp_inside:
  "elapsedMs s \<le> RAMP_MS \<Longrightarrow> state (runYellowRamp s) = state s \<and> trace (runYellowRamp s) = trace s"
  by (simp add: runYellowRamp_def prim_defs Let_def)

lemma ramp_after:
  "RAMP_MS < elapsedMs s \<Longrightarrow>
   runYellowRamp s = transitionToSuccess (FastLED_setBrightness MAX_BRIGHTNESS s)"
  by (simp add: runYellowRamp_def not_le [symmetric])

text \<open>
  C5, as amended: the brightness that \<open>runYellowRamp\<close> sets and shows is non-decreasing
  in the elapsed time; up to the window (2000 ms, inclusive) it is the linear
  interpolation \<open>MIN + elapsed * (MAX - MIN) div 2000\<close> and the state does not change; from
  the window on it is the maximum; and the transition to Success is taken when the
  elapsed time is strictly greater than the window.
\<close>
theorem yellow_ramp_brightness:
  "(elapsedMs s \<le> elapsedMs s' \<longrightarrow> brightness (runYellowRamp s) \<le> brightness (runYellowRamp s')) \<and>
   fst (strip (runYellowRamp s)) = brightness (runYellowRamp s) \<and>
   (elapsedMs s \<le> RAMP_MS \<longrightarrow>
      uint (brightness (runYellowRamp s)) =
        MIN_BRIGHTNESS + (uint (elapsedMs s) * (MAX_BRIGHTNESS - MIN_BRIGHTNESS)) div uint RAMP_MS \<and>
      state (runYellowRamp s) = state s \<and> trace (runYellowRamp s) = trace s) \<and>
   (RAMP_MS \<le> elapsedMs s \<longrightarrow> brightness (runYellowRamp s) = word_of_int MAX_BRIGHTNESS) \<and>
   (RAMP_MS < elapsedMs s \<longrightarrow>
      runYellowRamp s = transitionToSuccess (FastLED_setBrightness MAX_BRIGHTNESS s))"
proof -
  have a: "elapsedMs s \<le> elapsedMs s' \<longrightarrow> brightness (runYellowRamp s) \<le> brightness (runYellowRamp s')"
    using ramp_mono by blast
  have b: "elapsedMs s \<le> RAMP_MS \<longrightarrow>
      uint (brightness (runYellowRamp s)) =
        MIN_BRIGHTNESS + (uint (elapsedMs s) * (MAX_BRIGHTNESS - MIN_BRIGHTNESS)) div uint RAMP_MS \<and>
      state (runYellowRamp s) = state s \<and> trace (runYellowRamp s) = trace s"
    using ramp_brightness_in[of s] ramp_inside[of s]
    by (simp add: MIN_BRIGHTNESS_def MAX_BRIGHTNESS_def RAMP_MS_def)
  have c: "RAMP_MS \<le> elapsedMs s \<longrightarrow> brightness (runYellowRamp s) = word_of_int MAX_BRIGHTNESS"
  proof
    assume h: "RAMP_MS \<le> elapsedMs s"
    show "brightness (runYellowRamp s) = word_of_int MAX_BRIGHTNESS"
    proof (cases "elapsedMs s = RAMP_MS")
      case True
      then show ?thesis by (simp add: ramp_at_window MAX_BRIGHTNESS_def)
    next
      case False
      then have "\<not> elapsedMs s \<le> RAMP_MS" using h by simp
      then show ?thesis by (simp add: ramp_brightness_out MAX_BRIGHTNESS_def)
    qed
  qed
  show ?thesis using a b c ramp_shown[of s] ramp_after[of s] by blast
qed

lemma ex_ramp_fields:
  "elapsedMs ex_detected = 10" "elapsedMs ex_ramp_end = 2000" "elapsedMs ex_ramp_over = 2001"
  "state ex_ramp_end = STATE_CARD_DETECTED" "trace ex_ramp_end = [Poll 50, NotifyLed 1, Delay 300, Delay 10]"
  "sdOk ex_ramp_over" "state ex_ramp_over = STATE_CARD_DETECTED"
  by (simp_all add: ex_ramp_end_def ex_ramp_over_def ex_detected_def run_defs prim_defs cfg_defs Let_def)

theorem ramp_end_counterexample:
  "elapsedMs ex_ramp_end = RAMP_MS \<and> state ex_ramp_end = STATE_CARD_DETECTED \<and>
   brightness (runYellowRamp ex_ramp_end) = word_of_int MAX_BRIGHTNESS \<and>
   state (runYellowRamp ex_ramp_end) = STATE_CARD_DETECTED \<and>
   playCount (runYellowRamp ex_ramp_end) = 0"
proof -
  have e: "elapsedMs ex_ramp_end = RAMP_MS" by (simp add: ex_ramp_fields RAMP_MS_def)
  then have i: "elapsedMs ex_ramp_end \<le> RAMP_MS" by simp
  have "playCount (runYellowRamp ex_ramp_end) = 0"
    using ramp_inside[OF i] by (simp add: playCount_def ex_ramp_fields)
  then show ?thesis using e ramp_at_window[OF e] ramp_inside[OF i]
    by (simp add: ex_ramp_fields MAX_BRIGHTNESS_def)
qed

theorem yellow_ramp_brightness_witness:
  "elapsedMs ex_detected \<le> elapsedMs ex_ramp_end \<and>
   brightness (runYellowRamp ex_detected) \<le> brightness (runYellowRamp ex_ramp_end) \<and>
   elapsedMs ex_ramp_end \<le> RAMP_MS \<and> RAMP_MS \<le> elapsedMs ex_ramp_end \<and>
   uint (brightness (runYellowRamp ex_ramp_end)) = 65 \<and>
   RAMP_MS < elapsedMs ex_ramp_over \<and>
   runYellowRamp ex_ramp_over = transitionToSuccess (FastLED_setBrightness MAX_BRIGHTNESS ex_ramp_over)"
proof -
  have a: "elapsedMs ex_detected \<le> elapsedMs ex_ramp_end"
    and b: "elapsedMs ex_ramp_end \<le> RAMP_MS" "RAMP_MS \<le> elapsedMs ex_ramp_end"
    and c: "RAMP_MS < elapsedMs ex_ramp_over"
    by (simp_all add: ex_ramp_fields RAMP_MS_def)
  have "brightness (runYellowRamp ex_detected) \<le> brightness (runYellowRamp ex_ramp_end)"
    using yellow_ramp_brightness[of ex_detected ex_ramp_end] a by blast
  moreover have "uint (brightness (runYellowRamp ex_ramp_end)) = 65"
  proof -
    have "uint (brightness (runYellowRamp ex_ramp_end)) =
        MIN_BRIGHTNESS + (uint (elapsedMs ex_ramp_end) * (MAX_BRIGHTNESS - MIN_BRIGHTNESS)) div uint RAMP_MS"
      using yellow_ramp_brightness[of ex_ramp_end ex_ramp_end] b by blast
    then show ?thesis by (simp add: ex_ramp_fields cfg_defs)
  qed
  moreover have "runYellowRamp ex_ramp_over =
      transitionToSuccess (FastLED_setBrightness MAX_BRIGHTNESS ex_ramp_over)"
    using yellow_ramp_brightness[of ex_ramp_over ex_ramp_over] c by blast
  ultimately show ?thesis using a b c by blast
qed

section \<open>The card sensor\<close>

lemma TaskNFC_iter_eq:
  "TaskNFC_iter poll s =
     (if state s = STATE_IDLE then
        (case poll of
           Some ident \<Rightarrow>
             s\<lparr>uid := take 7 ident @ drop (length ident) (uid s), uidLength := of_nat (length ident),
               ledNotify := ledNotify s OR EVT_CARD_DETECTED, tickCount := tickCount s + 300,
               trace := trace s @ [Poll 50, NotifyLed EVT_CARD_DETECTED, Delay 300]\<rparr>
         | None \<Rightarrow> s\<lparr>tickCount := tickCount s + 40, trace := trace s @ [Poll 50, Delay 40]\<rparr>)
      else s\<lparr>tickCount := tickCount s + 80, trace := trace s @ [Delay 80]\<rparr>)"
  by (simp add: TaskNFC_iter_def nfc_readPassiveTargetID_def prim_defs cfg_defs Let_def
      split: option.splits)

lemma nfc_iter_keeps:
  "state (TaskNFC_iter poll s) = state s"
  "sdOk (TaskNFC_iter poll s) = sdOk s"
  "audioRunning (TaskNFC_iter poll s) = audioRunning s"
  "wasRunning (TaskNFC_iter poll s) = wasRunning s"
  "audioNotify (TaskNFC_iter poll s) = audioNotify s"
  "doneCount (TaskNFC_iter poll s) = doneCount s"
  "playCount (TaskNFC_iter poll s) = playCount s"
  "chaser_inv (TaskNFC_iter poll s) = chaser_inv s"
  by (simp_all add: TaskNFC_iter_eq doneCount_def playCount_def chaser_inv_def split: option.splits)

text \<open>
  C7: an iteration of the card sensor polls the reader, with the 50 ms timeout, only when
  it observes Idle; after a successful poll it raises the "card detected" flag and then
  sleeps the 300 ms debounce, which ends the iteration; after a failed poll it sleeps
  40 ms; when it does not observe Idle it only sleeps 80 ms, with no poll and no flag. It
  never changes the state.
\<close>
theorem card_sensor_iteration:
  "trace (TaskNFC_iter poll s) = trace s @
     (if state s = STATE_IDLE then
        (case poll of
           Some ident \<Rightarrow> [Poll 50, NotifyLed EVT_CARD_DETECTED, Delay (msToTicks 300)]
         | None \<Rightarrow> [Poll 50, Delay (msToTicks 40)])
      else [Delay (msToTicks 80)]) \<and>
   ledNotify (TaskNFC_iter poll s) =
     (if state s = STATE_IDLE \<and> poll \<noteq> None then ledNotify s OR EVT_CARD_DETECTED else ledNotify s) \<and>
   state (TaskNFC_iter poll s) = state s"
  by (simp add: TaskNFC_iter_eq cfg_defs split: option.splits)

section \<open>The audio task\<close>

lemma fade_step_keeps:
  "audioRunning (vTaskDelay n (audio_setVolume v s)) = audioRunning s"
  "wasRunning (vTaskDelay n (audio_setVolume v s)) = wasRunning s"
  "ledNotify (vTaskDelay n (audio_setVolume v s)) = ledNotify s"
  "audioNotify (vTaskDelay n (audio_setVolume v s)) = audioNotify s"
  "state (vTaskDelay n (audio_setVolume v s)) = state s"
  "sdOk (vTaskDelay n (audio_setVolume v s)) = sdOk s"
  "chaserIndex (vTaskDelay n (audio_setVolume v s)) = chaserIndex s"
  "chaserDir (vTaskDelay n (audio_setVolume v s)) = chaserDir s"
  "trace (vTaskDelay n (audio_setVolume v s)) = trace s @ [Delay n]"
  by (simp_all add: prim_defs)

lemma fold_fade_keeps:
  "audioRunning (fold (\<lambda>v s. vTaskDelay n (audio_setVolume v s)) vs s) = audioRunning s \<and>
   wasRunning (fold (\<lambda>v s. vTaskDelay n (audio_setVolume v s)) vs s) = wasRunning s \<and>
   ledNotify (fold (\<lambda>v s. vTaskDelay n (audio_setVolume v s)) vs s) = ledNotify s \<and>
   audioNotify (fold (\<lambda>v s. vTaskDelay n (audio_setVolume v s)) vs s) = audioNotify s \<and>
   state (fold (\<lambda>v s. vTaskDelay n (audio_setVolume v s)) vs s) = state s \<and>
   sdOk (fold (\<lambda>v s. vTaskDelay n (audio_setVolume v s)) vs s) = sdOk s \<and>
   chaserIndex (fold (\<lambda>v s. vTaskDelay n (audio_setVolume v s)) vs s) = chaserIndex s \<and>
   chaserDir (fold (\<lambda>v s. vTaskDelay n (audio_setVolume v s)) vs s) = chaserDir s \<and>
   trace (fold (\<lambda>v s. vTaskDelay n (audio_setVolume v s)) vs s) =
     trace s @ replicate (length vs) (Delay n)"
  by (induction vs arbitrary: s) (simp_all add: fade_step_keeps replicate_append_same)

lemma filter_replicate_Delay [simp]:
  "filter raisesDone (replicate k (Delay n)) = []"
  "filter raisesPlay (replicate k (Delay n)) = []"
  by (induction k) simp_all

lemma fadeIn_keeps:
  "audioRunning (fadeIn s) = audioRunning s"
  "wasRunning (fadeIn s) = wasRunning s"
  "ledNotify (fadeIn s) = ledNotify s"
  "audioNotify (fadeIn s) = audioNotify s"
  "state (fadeIn s) = state s"
  "sdOk (fadeIn s) = sdOk s"
  "chaserIndex (fadeIn s) = chaserIndex s"
  "chaserDir (fadeIn s) = chaserDir s"
  "doneCount (fadeIn s) = doneCount s"
  "playCount (fadeIn s) = playCount s"
  by (simp_all add: fadeIn_def fold_fade_keeps doneCount_def playCount_def)

lemma playRequest_fields:
  "audioRunning (playRequest starts s) = starts"
  "wasRunning (playRequest starts s) = wasRunning s"
  "doneCount (playRequest starts s) = doneCount s + (if starts then 0 else 1)"
  "playCount (playRequest starts s) = playCount s"
  "ledNotify (playRequest starts s) = (if starts then ledNotify s else ledNotify s OR EVT_AUDIO_DONE)"
  "audioNotify (playRequest starts s) = audioNotify s"
  "state (playRequest starts s) = state s"
  "sdOk (playRequest starts s) = sdOk s"
  "chaserIndex (playRequest starts s) = chaserIndex s"
  "chaserDir (playRequest starts s) = chaserDir s"
  by (simp_all add: playRequest_def Let_def fadeIn_keeps)
    (simp_all add: doneCount_def playCount_def prim_defs)

lemma detectEnd_fields:
  "audioRunning (detectEnd s) = audioRunning s"
  "wasRunning (detectEnd s) = audioRunning s"
  "doneCount (detectEnd s) = doneCount s + (if wasRunning s \<and> \<not> audioRunning s then 1 else 0)"
  "playCount (detectEnd s) = playCount s"
  "ledNotify (detectEnd s) =
     (if wasRunning s \<and> \<not> audioRunning s then ledNotify s OR EVT_AUDIO_DONE else ledNotify s)"
  "audioNotify (detectEnd s) = audioNotify s"
  "state (detectEnd s) = state s"
  "sdOk (detectEnd s) = sdOk s"
  "chaserIndex (detectEnd s) = chaserIndex s"
  "chaserDir (detectEnd s) = chaserDir s"
  by (simp_all add: detectEnd_def Let_def doneCount_def playCount_def prim_defs)

lemma pump_fields:
  "audioRunning (if audio_isRunning s then audio_loop ends s else s) = (audioRunning s \<and> \<not> ends)"
  "wasRunning (if audio_isRunning s then audio_loop ends s else s) = wasRunning s"
  "doneCount (if audio_isRunning s then audio_loop ends s else s) = doneCount s"
  "playCount (if audio_isRunning s then audio_loop ends s else s) = playCount s"
  "ledNotify (if audio_isRunning s then audio_loop ends s else s) = ledNotify s"
  "audioNotify (if audio_isRunning s then audio_loop ends s else s) = audioNotify s"
  "state (if audio_isRunning s then audio_loop ends s else s) = state s"
  "sdOk (if audio_isRunning s then audio_loop ends s else s) = sdOk s"
  "chaserIndex (if audio_isRunning s then audio_loop ends s else s) = chaserIndex s"
  "chaserDir (if audio_isRunning s then audio_loop ends s else s) = chaserDir s"
  by (simp_all add: doneCount_def playCount_def prim_defs)

lemma TaskAudio_iter_fields:
  "audioRunning (TaskAudio_iter notif ends starts s) =
     (if notif AND EVT_PLAY_SUCCESS \<noteq> 0 then starts else audioRunning s \<and> \<not> ends)"
  "wasRunning (TaskAudio_iter notif ends starts s) =
     audioRunning (TaskAudio_iter notif ends starts s)"
  "doneCount (TaskAudio_iter notif ends starts s) = doneCount s +
     (if notif AND EVT_PLAY_SUCCESS \<noteq> 0 \<and> \<not> starts then 1 else 0) +
     (if wasRunning s \<and> \<not> audioRunning (TaskAudio_iter notif ends starts s) then 1 else 0)"
  "playCount (TaskAudio_iter notif ends starts s) = playCount s"
  "audioNotify (TaskAudio_iter notif ends starts s) = audioNotify s"
  "state (TaskAudio_iter notif ends starts s) = state s"
  "sdOk (TaskAudio_iter notif ends starts s) = sdOk s"
  "chaserIndex (TaskAudio_iter notif ends starts s) = chaserIndex s"
  "chaserDir (TaskAudio_iter notif ends starts s) = chaserDir s"
  by (auto simp add: TaskAudio_iter_def Let_def delay_keeps detectEnd_fields playRequest_fields
      pump_fields)

lemma TaskAudio_iter_ledNotify:
  "ledNotify (TaskAudio_iter notif ends starts s) =
     (if doneCount (TaskAudio_iter notif ends starts s) = doneCount s then ledNotify s
      else ledNotify s OR EVT_AUDIO_DONE)"
  by (auto simp add: TaskAudio_iter_def Let_def delay_keeps detectEnd_fields playRequest_fields
      pump_fields word_bw_assocs)

lemma TaskAudio_iter_chaser: "chaser_inv (TaskAudio_iter notif ends starts s) = chaser_inv s"
  by (simp add: chaser_inv_def TaskAudio_iter_fields)

lemma no_request_run:
  assumes "wasRunning s = audioRunning s" and "\<forall>x\<in>set later. fst x AND EVT_PLAY_SUCCESS = 0"
  shows "doneCount (TaskAudio_run later s) =
           doneCount s + (if audioRunning s \<and> \<not> audioRunning (TaskAudio_run later s) then 1 else 0) \<and>
         wasRunning (TaskAudio_run later s) = audioRunning (TaskAudio_run later s) \<and>
         (\<not> audioRunning s \<longrightarrow> \<not> audioRunning (TaskAudio_run later s))"
  using assms
proof (induction later arbitrary: s)
  case Nil
  then show ?case by simp
next
  case (Cons x later)
  obtain n e st where x: "x = (n, e, st)" by (cases x)
  let ?s1 = "TaskAudio_iter n e st s"
  have n: "n AND EVT_PLAY_SUCCESS = 0" using Cons.prems(2) x by simp
  have w: "wasRunning ?s1 = audioRunning ?s1" by (simp add: TaskAudio_iter_fields)
  have rest: "\<forall>x\<in>set later. fst x AND EVT_PLAY_SUCCESS = 0" using Cons.prems(2) by simp
  note ih = Cons.IH[OF w rest]
  have r1: "audioRunning ?s1 = (audioRunning s \<and> \<not> e)" using n by (simp add: TaskAudio_iter_fields)
  have d1: "doneCount ?s1 = doneCount s + (if audioRunning s \<and> \<not> audioRunning ?s1 then 1 else 0)"
    using n Cons.prems(1) by (simp add: TaskAudio_iter_fields)
  show ?case using ih r1 d1 by (auto simp add: x)
qed

lemma boot_audio: "\<not> audioRunning (boot t0)" "\<not> wasRunning (boot t0)" "doneCount (boot t0) = 0"
  by (simp_all add: boot_def doneCount_def)

section \<open>Runs of the three tasks\<close>

lemma sys_run_invariant:
  assumes "P s" and "\<And>e s. P s \<Longrightarrow> P (sys_step e s)"
  shows "P (sys_run es s)"
  using assms(1) by (induction es arbitrary: s) (simp_all add: assms(2))

lemma sys_run_append: "sys_run (es @ fs) s = sys_run fs (sys_run es s)"
  by (induction es arbitrary: s) simp_all

lemma sys_step_chaser: "chaser_inv s \<Longrightarrow> chaser_inv (sys_step e s)"
proof (cases e)
  case LedTick
  assume "chaser_inv s"
  then have "chaser_inv (s\<lparr>ledNotify := 0\<rparr>)" by (simp add: chaser_inv_def)
  then show ?thesis using LedTick by (simp add: led_iter_chaser)
next
  case (AudioTick ends starts)
  assume "chaser_inv s"
  then have "chaser_inv (s\<lparr>audioNotify := 0\<rparr>)" by (simp add: chaser_inv_def)
  then show ?thesis using AudioTick by (simp add: TaskAudio_iter_chaser)
next
  case (NfcTick poll)
  assume "chaser_inv s"
  then show ?thesis using NfcTick by (simp add: nfc_iter_keeps)
next
  case (Elapse dt)
  assume "chaser_inv s"
  then show ?thesis using Elapse by (simp add: chaser_inv_def)
qed

lemma sys_boot_fields:
  "state (sys_boot mounted version t0) = STATE_IDLE"
  "sdOk (sys_boot mounted version t0) = mounted"
  "audioNotify (sys_boot mounted version t0) = 0"
  "ledNotify (sys_boot mounted version t0) = 0"
  "\<not> audioRunning (sys_boot mounted version t0)"
  "\<not> wasRunning (sys_boot mounted version t0)"
  "trace (sys_boot mounted version t0) = []"
  "chaserIndex (sys_boot mounted version t0) = 0"
  "chaserDir (sys_boot mounted version t0) = 1"
  by (simp_all add: sys_boot_def TaskLEDState_init_def setup_freertos_def errorState_def boot_def
      prim_defs Let_def)

lemma sys_boot_chaser: "chaser_inv (sys_boot mounted version t0)"
  by (simp add: chaser_inv_def sys_boot_fields NUM_LEDS_def)

lemma sys_run_chaser: "chaser_inv (sys_run es (sys_boot mounted version t0))"
  by (rule sys_run_invariant[OF sys_boot_chaser sys_step_chaser])

lemma chaser_inv_facts:
  assumes "chaser_inv s"
  shows "0 \<le> sint (chaserIndex s) \<and> sint (chaserIndex s) \<le> int NUM_LEDS - 1 \<and>
     (chaserDir s = 1 \<or> chaserDir s = - 1) \<and>
     sint (chaserIndex (runChaserStep s)) =
       (if stepDue s then sint (chaserIndex s) + sint (chaserDir s) else sint (chaserIndex s)) \<and>
     (chaserDir (runChaserStep s) = - chaserDir s) =
       (stepDue s \<and> (int NUM_LEDS - 1 \<le> sint (chaserIndex (runChaserStep s)) \<or>
                      sint (chaserIndex (runChaserStep s)) \<le> 0)) \<and>
     (chaserDir (runChaserStep s) = chaserDir s \<or> chaserDir (runChaserStep s) = - chaserDir s)"
  using assms unfolding chaser_inv_def chaser_fields
  by (elim disjE conjE) (simp_all add: sint_i8_succ sint_i8_pred NUM_LEDS_def)

text \<open>
  C6: in every state the three tasks can reach from boot, the chaser index is on the
  strip (\<open>0 \<le> index \<le> NUM_LEDS - 1\<close>) and the direction is +1 or -1; a chaser step
  that is due adds the direction to the index, and the direction is inverted exactly
  when the step is due and the index after the step is \<open>\<ge> NUM_LEDS - 1\<close> or \<open>\<le> 0\<close>
  (so the boundary pair is \<open>NUM_LEDS - 1\<close> and \<open>0\<close>); otherwise it is kept.
\<close>
theorem chaser_stays_on_strip:
  "0 \<le> sint (chaserIndex (sys_run es (sys_boot mounted version t0))) \<and>
   sint (chaserIndex (sys_run es (sys_boot mounted version t0))) \<le> int NUM_LEDS - 1 \<and>
   (chaserDir (sys_run es (sys_boot mounted version t0)) = 1 \<or>
    chaserDir (sys_run es (sys_boot mounted version t0)) = - 1) \<and>
   sint (chaserIndex (runChaserStep (sys_run es (sys_boot mounted version t0)))) =
     (if stepDue (sys_run es (sys_boot mounted version t0))
      then sint (chaserIndex (sys_run es (sys_boot mounted version t0))) +
           sint (chaserDir (sys_run es (sys_boot mounted version t0)))
      else sint (chaserIndex (sys_run es (sys_boot mounted version t0)))) \<and>
   (chaserDir (runChaserStep (sys_run es (sys_boot mounted version t0))) =
      - chaserDir (sys_run es (sys_boot mounted version t0))) =
     (stepDue (sys_run es (sys_boot mounted version t0)) \<and>
      (int NUM_LEDS - 1 \<le> sint (chaserIndex (runChaserStep (sys_run es (sys_boot mounted version t0)))) \<or>
       sint (chaserIndex (runChaserStep (sys_run es (sys_boot mounted version t0)))) \<le> 0)) \<and>
   (chaserDir (runChaserStep (sys_run es (sys_boot mounted version t0))) =
      chaserDir (sys_run es (sys_boot mounted version t0)) \<or>
    chaserDir (runChaserStep (sys_run es (sys_boot mounted version t0))) =
      - chaserDir (sys_run es (sys_boot mounted version t0)))"
  by (rule chaser_inv_facts[OF sys_run_chaser])

lemma sys_step_storage: "storage_inv mounted s \<Longrightarrow> storage_inv mounted (sys_step e s)"
proof (cases e)
  case LedTick
  assume a: "storage_inv mounted s"
  show ?thesis using a LedTick led_iter_success[of "ledNotify s" "s\<lparr>ledNotify := 0\<rparr>"]
    by (auto simp add: storage_inv_def led_iter_keeps)
next
  case (AudioTick ends starts)
  assume "storage_inv mounted s"
  then show ?thesis using AudioTick by (auto simp add: storage_inv_def TaskAudio_iter_fields)
next
  case (NfcTick poll)
  assume "storage_inv mounted s"
  then show ?thesis using NfcTick by (auto simp add: storage_inv_def nfc_iter_keeps)
next
  case (Elapse dt)
  assume "storage_inv mounted s"
  then show ?thesis using Elapse by (auto simp add: storage_inv_def)
qed

lemma sys_run_storage: "storage_inv mounted (sys_run es (sys_boot mounted version t0))"
proof (rule sys_run_invariant)
  show "storage_inv mounted (sys_boot mounted version t0)"
    by (simp add: storage_inv_def sys_boot_fields)
qed (rule sys_step_storage)

text \<open>
  C9: in every state the three tasks can reach from boot, the storage flag is what
  \<open>SD.begin\<close> returned, and the state is Success only if the flag is set; \<open>setup()\<close>
  does not leave the state in Success either, and with the flag clear
  \<open>transitionToSuccess\<close> ends in Idle.
\<close>
theorem success_only_with_storage:
  "sdOk (sys_run es (sys_boot mounted version t0)) = mounted \<and>
   (state (sys_run es (sys_boot mounted version t0)) = STATE_SUCCESS \<longrightarrow>
      sdOk (sys_run es (sys_boot mounted version t0))) \<and>
   state (setup_freertos mounted version (boot t0)) \<noteq> STATE_SUCCESS \<and>
   (\<not> sdOk s \<longrightarrow> state (transitionToSuccess s) = STATE_IDLE)"
proof -
  have a: "state (setup_freertos mounted version (boot t0)) \<noteq> STATE_SUCCESS"
    by (simp add: setup_freertos_def errorState_def boot_def prim_defs Let_def)
  have b: "\<not> sdOk s \<longrightarrow> state (transitionToSuccess s) = STATE_IDLE"
    by (simp add: transitionToSuccess_eq)
  show ?thesis using sys_run_storage[of mounted es version t0] a b
    unfolding storage_inv_def by blast
qed

lemma ex_success_run:
  "ex_success = sys_run [NfcTick (Some [4, 3, 2, 1]), LedTick, Elapse 2000, LedTick] (sys_boot True 1 0)"
  by (simp add: ex_success_def ex_detected_def)

theorem success_only_with_storage_witness:
  "state ex_success = STATE_SUCCESS \<and> sdOk ex_success \<and>
   \<not> sdOk ex_nosd_ramp_over \<and> state (transitionToSuccess ex_nosd_ramp_over) = STATE_IDLE"
proof -
  have n: "\<not> sdOk ex_nosd_ramp_over"
    by (simp add: ex_nosd_ramp_over_def run_defs prim_defs cfg_defs Let_def)
  have "sdOk ex_success"
    using success_only_with_storage[of "[NfcTick (Some [4, 3, 2, 1]), LedTick, Elapse 2000, LedTick]" True 1 0]
      ex_success_state unfolding ex_success_run by blast
  moreover have "state (transitionToSuccess ex_nosd_ramp_over) = STATE_IDLE"
    using success_only_with_storage[of _ _ _ _ ex_nosd_ramp_over] n by blast
  ultimately show ?thesis using n ex_success_state by blast
qed

lemma sys_step_nosd: "nosd_inv s \<Longrightarrow> nosd_inv (sys_step e s)"
proof (cases e)
  case LedTick
  assume a: "nosd_inv s"
  let ?s = "s\<lparr>ledNotify := 0\<rparr>"
  have b: "\<not> sdOk ?s" "state ?s \<noteq> STATE_SUCCESS" using a by (simp_all add: nosd_inv_def)
  have "state (TaskLEDState_iter (ledNotify s) ?s) \<noteq> STATE_SUCCESS"
    using led_iter_success[of "ledNotify s" ?s] b by blast
  then show ?thesis using a LedTick led_iter_nosd[OF b(1), of "ledNotify s"]
    by (simp add: nosd_inv_def led_iter_keeps count_upd)
next
  case (AudioTick ends starts)
  assume "nosd_inv s"
  then show ?thesis using AudioTick
    by (simp add: nosd_inv_def TaskAudio_iter_fields count_upd)
next
  case (NfcTick poll)
  assume "nosd_inv s"
  then show ?thesis using NfcTick by (simp add: nosd_inv_def nfc_iter_keeps)
next
  case (Elapse dt)
  assume "nosd_inv s"
  then show ?thesis using Elapse by (simp add: nosd_inv_def count_upd)
qed

lemma sys_run_nosd: "nosd_inv (sys_run es (sys_boot False version t0))"
proof (rule sys_run_invariant)
  show "nosd_inv (sys_boot False version t0)"
    by (simp add: nosd_inv_def sys_boot_fields doneCount_def playCount_def)
qed (rule sys_step_nosd)

lemma nosd_ramp_over_tick:
  assumes "\<not> sdOk s" and "state s = STATE_CARD_DETECTED" and "RAMP_MS < elapsedMs s"
  shows "state (TaskLEDState_iter 0 s) = STATE_IDLE"
    and "trace (TaskLEDState_iter 0 s) = trace s @ [Delay (msToTicks 250), Delay (msToTicks 10)]"
  using assms
  by (simp_all add: TaskLEDState_iter_def handleNotifications_def stateMachine_def runYellowRamp_def
      transitionToSuccess_eq prim_defs cfg_defs Let_def not_le [symmetric])

text \<open>
  C4: with the storage flag clear, \<open>transitionToSuccess\<close> ends in Idle after its one
  delay of 250 ms, which is all it adds to the trace: no play request is sent and the
  notification value of the audio task is untouched; the tick that ends the ramp adds
  its own 10 ms. And in every run of the three tasks from a boot whose mount failed, no
  play request is ever sent, the audio task never plays, the "playback done" flag is
  never raised and the state is never Success.
\<close>
theorem no_storage_returns_to_idle:
  assumes "\<not> sdOk s"
  shows "state (transitionToSuccess s) = STATE_IDLE \<and>
         tickCount (transitionToSuccess s) = tickCount s + msToTicks 250 \<and>
         stateStartTick (transitionToSuccess s) = tickCount s + msToTicks 250 \<and>
         trace (transitionToSuccess s) = trace s @ [Delay (msToTicks 250)] \<and>
         audioNotify (transitionToSuccess s) = audioNotify s \<and>
         (state s = STATE_CARD_DETECTED \<and> RAMP_MS < elapsedMs s \<longrightarrow>
            state (TaskLEDState_iter 0 s) = STATE_IDLE \<and>
            trace (TaskLEDState_iter 0 s) = trace s @ [Delay (msToTicks 250), Delay (msToTicks 10)]) \<and>
         playCount (sys_run es (sys_boot False version t0)) = 0 \<and>
         doneCount (sys_run es (sys_boot False version t0)) = 0 \<and>
         audioNotify (sys_run es (sys_boot False version t0)) = 0 \<and>
         \<not> audioRunning (sys_run es (sys_boot False version t0)) \<and>
         state (sys_run es (sys_boot False version t0)) \<noteq> STATE_SUCCESS"
  using assms sys_run_nosd[of es version t0] nosd_ramp_over_tick[of s]
  by (simp add: nosd_inv_def transitionToSuccess_eq cfg_defs)

lemma ex_nosd_fields:
  "\<not> sdOk ex_nosd_ramp_over \<and> state ex_nosd_ramp_over = STATE_CARD_DETECTED \<and>
   elapsedMs ex_nosd_ramp_over = 2001 \<and>
   trace ex_nosd_ramp_over = [Poll 50, NotifyLed 1, Delay 300, Delay 10]"
  by (simp add: ex_nosd_ramp_over_def run_defs prim_defs cfg_defs Let_def)

theorem no_storage_returns_to_idle_witness:
  "\<not> sdOk ex_nosd_ramp_over \<and> state ex_nosd_ramp_over = STATE_CARD_DETECTED \<and>
   RAMP_MS < elapsedMs ex_nosd_ramp_over \<and>
   state (TaskLEDState_iter 0 ex_nosd_ramp_over) = STATE_IDLE \<and>
   trace (TaskLEDState_iter 0 ex_nosd_ramp_over) =
     [Poll 50, NotifyLed 1, Delay 300, Delay 10, Delay 250, Delay 10] \<and>
   doneCount (sys_run [LedTick, AudioTick False True, LedTick] ex_nosd_ramp_over) = 0"
proof -
  note f = ex_nosd_fields
  have r: "RAMP_MS < elapsedMs ex_nosd_ramp_over" using f by (simp add: RAMP_MS_def)
  have n: "\<not> sdOk ex_nosd_ramp_over" using f by blast
  have run: "sys_run [LedTick, AudioTick False True, LedTick] ex_nosd_ramp_over =
      sys_run [NfcTick (Some [4, 3, 2, 1]), LedTick, Elapse 1991, LedTick, AudioTick False True, LedTick]
        (sys_boot False 1 0)"
    by (simp add: ex_nosd_ramp_over_def)
  note t = no_storage_returns_to_idle[OF n,
      of "[NfcTick (Some [4, 3, 2, 1]), LedTick, Elapse 1991, LedTick, AudioTick False True, LedTick]" 1 0]
  have "state (TaskLEDState_iter 0 ex_nosd_ramp_over) = STATE_IDLE" using t f r by blast
  moreover have "trace (TaskLEDState_iter 0 ex_nosd_ramp_over) =
     [Poll 50, NotifyLed 1, Delay 300, Delay 10, Delay 250, Delay 10]"
  proof -
    have "trace (TaskLEDState_iter 0 ex_nosd_ramp_over) =
      trace ex_nosd_ramp_over @ [Delay (msToTicks 250), Delay (msToTicks 10)]" using t f r by blast
    then show ?thesis using f by (simp add: cfg_defs)
  qed
  moreover have "doneCount (sys_run [LedTick, AudioTick False True, LedTick] ex_nosd_ramp_over) = 0"
    unfolding run using t by blast
  ultimately show ?thesis using f r by blast
qed








lemma nfc_iter_busy: "state s \<noteq> STATE_IDLE \<Longrightarrow> ledNotify (TaskNFC_iter poll s) = ledNotify s"
  by (simp add: TaskNFC_iter_eq)




section \<open>Detection flags in the runs\<close>




lemma handle_quiet:
  "notif AND EVT_CARD_DETECTED = 0 \<Longrightarrow> notif AND EVT_AUDIO_DONE = 0 \<Longrightarrow>
   handleNotifications notif s = s"
  by (simp add: handleNotifications_def)








section \<open>Play requests in the runs\<close>







section \<open>The Error state\<close>

text \<open>
  The loops alone would keep Error: started in the state that \<open>setup()\<close> leaves when
  the reader is not found, the three loop bodies never leave Error, since the card
  sensor does not poll outside Idle and so no flag is ever raised.
\<close>

lemma sys_step_error: "error_inv s \<Longrightarrow> error_inv (sys_step e s)"
proof (cases e)
  case LedTick
  assume a: "error_inv s"
  let ?s = "s\<lparr>ledNotify := 0\<rparr>"
  have q: "TaskLEDState_iter 0 ?s = vTaskDelay (msToTicks 10) (stateMachine ?s)"
    by (rule iter_quiet) (simp_all add: flag_bits)
  have "stateMachine ?s = ?s" using a by (simp add: stateMachine_def error_inv_def)
  then show ?thesis using a LedTick q by (simp add: error_inv_def delay_keeps)
next
  case (AudioTick ends starts)
  assume a: "error_inv s"
  let ?s = "s\<lparr>audioNotify := 0\<rparr>"
  let ?t = "TaskAudio_iter 0 ends starts ?s"
  have r: "\<not> audioRunning ?t" "\<not> wasRunning ?t" "audioNotify ?t = 0" "state ?t = STATE_ERROR"
    using a by (simp_all add: TaskAudio_iter_fields error_inv_def flag_bits)
  have "doneCount ?t = doneCount ?s"
    using a r(1) by (simp add: TaskAudio_iter_fields(3) error_inv_def flag_bits)
  then have "ledNotify ?t = 0"
    using a TaskAudio_iter_ledNotify[of 0 ends starts ?s] by (simp add: error_inv_def)
  then show ?thesis using a r AudioTick by (simp add: error_inv_def)
next
  case (NfcTick poll)
  assume a: "error_inv s"
  then have "state s \<noteq> STATE_IDLE" by (simp add: error_inv_def)
  from nfc_iter_busy[OF this] a show ?thesis using NfcTick
    by (simp add: error_inv_def nfc_iter_keeps)
next
  case (Elapse dt)
  assume "error_inv s"
  then show ?thesis using Elapse by (simp add: error_inv_def)
qed

lemma sys_run_error: "error_inv s \<Longrightarrow> error_inv (sys_run es s)"
  by (rule sys_run_invariant[where P = error_inv]) (simp_all add: sys_step_error)

lemma ex_error_quiet: "error_inv ex_error"
  by (simp add: error_inv_def ex_error_def setup_freertos_def errorState_def boot_def prim_defs Let_def)

lemma stateMachine_error: "state (stateMachine s) = STATE_ERROR \<Longrightarrow> state s = STATE_ERROR"
  by (simp add: stateMachine_def runChaserStep_state runYellowRamp_state
      split: ReaderState.splits if_splits)

lemma led_iter_error:
  assumes "state (TaskLEDState_iter notif s) = STATE_ERROR"
  shows "state s = STATE_ERROR"
proof -
  have "state (stateMachine (handleNotifications notif s)) = STATE_ERROR"
    using assms by (simp add: TaskLEDState_iter_def delay_keeps)
  from stateMachine_error[OF this] show ?thesis
    by (simp add: handle_state split: if_splits)
qed

lemma sys_step_not_error: "state s \<noteq> STATE_ERROR \<Longrightarrow> state (sys_step e s) \<noteq> STATE_ERROR"
proof (cases e)
  case LedTick
  assume "state s \<noteq> STATE_ERROR"
  then show ?thesis using LedTick led_iter_error[of "ledNotify s" "s\<lparr>ledNotify := 0\<rparr>"] by auto
next
  case (AudioTick ends starts)
  assume "state s \<noteq> STATE_ERROR"
  then show ?thesis using AudioTick by (simp add: TaskAudio_iter_fields)
next
  case (NfcTick poll)
  assume "state s \<noteq> STATE_ERROR"
  then show ?thesis using NfcTick by (simp add: nfc_iter_keeps)
next
  case (Elapse dt)
  assume "state s \<noteq> STATE_ERROR"
  then show ?thesis using Elapse by simp
qed

lemma sys_run_not_error: "state (sys_run es (sys_boot mounted version t0)) \<noteq> STATE_ERROR"
proof (rule sys_run_invariant[where P = "\<lambda>s. state s \<noteq> STATE_ERROR"])
  show "state (sys_boot mounted version t0) \<noteq> STATE_ERROR" by (simp add: sys_boot_fields)
qed (rule sys_step_not_error)

lemma absent_reader_cycle:
  "state (sys_run [NfcTick (Some ident), LedTick] (sys_boot mounted 0 t0)) = STATE_CARD_DETECTED"
proof -
  let ?b = "sys_boot mounted 0 t0"
  let ?n = "TaskNFC_iter (Some ident) ?b"
  have l: "ledNotify ?n = EVT_CARD_DETECTED"
    by (simp add: TaskNFC_iter_eq sys_boot_fields)
  have "state (TaskLEDState_iter EVT_CARD_DETECTED (?n\<lparr>ledNotify := 0\<rparr>)) = STATE_CARD_DETECTED"
    by (rule iter_card(1)) (simp_all add: flag_bits)
  then show ?thesis using l by simp
qed

text \<open>
  C1: Error is not kept. When the reader is not found (\<open>version = 0\<close>), \<open>setup()\<close>
  puts the machine in Error, and the first statement of \<open>TaskLEDState\<close> (in the
  single-loop variant the last statement of \<open>setup()\<close>) puts it in Idle. So no run of
  the three tasks is ever in Error, whatever the reader said, and with the reader
  reported absent a detected card still starts the ramp.
\<close>
theorem error_overwritten_at_start:
  "state (setup_freertos mounted 0 (boot t0)) = STATE_ERROR \<and>
   state (sys_boot mounted 0 t0) = STATE_IDLE \<and>
   state (sys_run es (sys_boot mounted version t0)) \<noteq> STATE_ERROR \<and>
   state (sys_run [NfcTick (Some ident), LedTick] (sys_boot mounted 0 t0)) = STATE_CARD_DETECTED \<and>
   state01 (setup_basic 0 (boot_basic t0)) = STATE_IDLE"
proof -
  have "state (setup_freertos mounted 0 (boot t0)) = STATE_ERROR"
    by (simp add: setup_freertos_def errorState_def prim_defs Let_def)
  moreover have "state01 (setup_basic 0 (boot_basic t0)) = STATE_IDLE"
    by (simp add: setup_basic_def changeState_basic_def Let_def)
  ultimately show ?thesis
    using sys_run_not_error[of es mounted version t0] absent_reader_cycle[of ident mounted t0]
    by (simp add: sys_boot_fields)
qed

end
